theory Spec2Isabelle
  imports Main "HOL-Library.Char_ord" "HOL-Library.List_Lexorder" "HOL-Library.Multiset"
begin

section \<open>The extension-host workspace (extHostWorkspace.ts)\<close>

text \<open>
  A shallow embedding of \<^verbatim>\<open>src/vs/workbench/api/node/extHostWorkspace.ts\<close>: the class
  \<^verbatim>\<open>Workspace2\<close> (the snapshot of the workspace folders) and the class
  \<^verbatim>\<open>ExtHostWorkspace\<close> (folder queries, path relativisation, the change event, file
  search with request ids, and the translation of workspace edits).

  JavaScript strings are modelled as \<^typ>\<open>string\<close>, compared lexicographically by
  character code as \<^verbatim>\<open><\<close> compares them. \<^verbatim>\<open>undefined\<close> and \<^verbatim>\<open>null\<close> are
  \<^term>\<open>None\<close>. The mutable fields of an instance are a record that every operation
  returns updated; what an instance sends to its collaborators (the event emitter, the
  main-thread proxy, a cancellation token) is appended to a log in that state.
\<close>

subsection \<open>Data model\<close>

text \<open>
  A URI is used through two observations only: \<^verbatim>\<open>uri.toString()\<close>, the canonical
  string, and \<^verbatim>\<open>uri.fsPath\<close>.
\<close>

record URI =
  toString :: string
  fsPath :: string

text \<open>\<^verbatim>\<open>IWorkspaceData\<close> of the protocol: \<^verbatim>\<open>{ id, name, roots }\<close>.\<close>

record IWorkspaceData =
  data_id :: string
  data_name :: string
  data_roots :: "URI list"

text \<open>
  Modelled from the spec: the class \<^verbatim>\<open>Workspace\<close> of
  \<^verbatim>\<open>vs/platform/workspace/common/workspace\<close> is not among the sources. The spec has the
  snapshot build its roots from the input root list verbatim, order preserved.
\<close>

record Workspace =
  ws_id :: string
  ws_name :: string
  roots :: "URI list"

definition new_Workspace :: "string \<Rightarrow> string \<Rightarrow> URI list \<Rightarrow> Workspace" where
  "new_Workspace i n rs = \<lparr>ws_id = i, ws_name = n, roots = rs\<rparr>"

text \<open>\<^verbatim>\<open>vscode.WorkspaceFolder\<close>: \<^verbatim>\<open>{ name, uri, index }\<close>.\<close>

record WorkspaceFolder =
  name :: string
  uri :: URI
  index :: nat

text \<open>
  \<^verbatim>\<open>Workspace2\<close>: its two fields are \<^verbatim>\<open>readonly\<close>, but \<^verbatim>\<open>folders\<close> is an
  array, which \<^verbatim>\<open>Array.prototype.sort\<close> reorders in place.
\<close>

record Workspace2 =
  workspace :: Workspace
  folders :: "WorkspaceFolder list"

text \<open>\<^verbatim>\<open>vscode.WorkspaceFoldersChangeEvent\<close>: \<^verbatim>\<open>{ added, removed }\<close>.\<close>

record WorkspaceFoldersChangeEvent =
  added :: "WorkspaceFolder list"
  removed :: "WorkspaceFolder list"

text \<open>
  The fields of one \<^verbatim>\<open>ExtHostWorkspace\<close> instance: \<^verbatim>\<open>_proxy\<close> (the handle of the
  main-thread proxy the thread service gave it), \<^verbatim>\<open>_workspace\<close> (the current snapshot,
  \<^term>\<open>None\<close> when no workspace is open), and the events that
  \<^verbatim>\<open>_onDidChangeWorkspace\<close> has fired, oldest first.
\<close>

record ExtHostWorkspace =
  proxy :: nat
  workspace2 :: "Workspace2 option"
  fired :: "WorkspaceFoldersChangeEvent list"

subsection \<open>The snapshot: \<^verbatim>\<open>Workspace2\<close>\<close>

text \<open>
  The constructor maps every root, with its position, to a folder:
  \<^verbatim>\<open>roots.map((uri, index) => ({ name: basename(uri.fsPath), uri, index }))\<close>.
  \<^verbatim>\<open>basename\<close> is Node's; it is a parameter here.
\<close>

fun map_index :: "(string \<Rightarrow> string) \<Rightarrow> nat \<Rightarrow> URI list \<Rightarrow> WorkspaceFolder list" where
  "map_index basename i [] = []"
| "map_index basename i (u # us) =
     \<lparr>name = basename (fsPath u), uri = u, index = i\<rparr> # map_index basename (Suc i) us"

definition new_Workspace2 :: "(string \<Rightarrow> string) \<Rightarrow> IWorkspaceData \<Rightarrow> Workspace2" where
  "new_Workspace2 basename data =
     (let w = new_Workspace (data_id data) (data_name data) (data_roots data)
      in \<lparr>workspace = w, folders = map_index basename 0 (roots w)\<rparr>)"

definition fromData :: "(string \<Rightarrow> string) \<Rightarrow> IWorkspaceData option \<Rightarrow> Workspace2 option" where
  "fromData basename data =
     (case data of None \<Rightarrow> None | Some d \<Rightarrow> Some (new_Workspace2 basename d))"

text \<open>
  \<^verbatim>\<open>Workspace2.getRoot\<close>: asks the workspace for the root of the resource
  (\<^verbatim>\<open>Workspace.getRoot\<close>, not among the sources: the parameter \<open>ws_getRoot\<close>) and, when
  there is one, returns the first folder whose URI string equals the argument's.
\<close>

fun find_folder :: "WorkspaceFolder list \<Rightarrow> URI \<Rightarrow> WorkspaceFolder option" where
  "find_folder [] u = None"
| "find_folder (folder # rest) u =
     (if toString (uri folder) = toString u then Some folder else find_folder rest u)"

definition getRoot ::
  "(Workspace \<Rightarrow> URI \<Rightarrow> URI option) \<Rightarrow> Workspace2 \<Rightarrow> URI \<Rightarrow> WorkspaceFolder option" where
  "getRoot ws_getRoot w u =
     (case ws_getRoot (workspace w) u of
        Some root \<Rightarrow> find_folder (folders w) u
      | None \<Rightarrow> None)"

subsection \<open>Sorting and the delta of two folder lists\<close>

text \<open>
  Modelled from the spec: \<^verbatim>\<open>compare\<close> of \<^verbatim>\<open>vs/base/common/strings\<close> is not among the
  sources. The spec sorts folders by canonical URI string, ascending, with a string-key
  comparison: negative, zero or positive as the first string is less than, equal to or
  greater than the second.
\<close>

definition compare :: "string \<Rightarrow> string \<Rightarrow> int" where
  "compare a b = (if a < b then - 1 else if a > b then 1 else 0)"

definition compareWorkspaceFolder :: "WorkspaceFolder \<Rightarrow> WorkspaceFolder \<Rightarrow> int" where
  "compareWorkspaceFolder a b = compare (toString (uri a)) (toString (uri b))"

text \<open>
  \<^verbatim>\<open>Array.prototype.sort(compareFn)\<close>, as a stable insertion sort: an element goes in
  front of the first element that the comparison does not put before it. (The spec asks
  for a stable sort; when no two elements compare equal, every sort gives this result.)
\<close>

fun sort_insert :: "('a \<Rightarrow> 'a \<Rightarrow> int) \<Rightarrow> 'a \<Rightarrow> 'a list \<Rightarrow> 'a list" where
  "sort_insert cmp x [] = [x]"
| "sort_insert cmp x (y # ys) =
     (if cmp x y \<le> 0 then x # y # ys else y # sort_insert cmp x ys)"

definition array_sort :: "('a \<Rightarrow> 'a \<Rightarrow> int) \<Rightarrow> 'a list \<Rightarrow> 'a list" where
  "array_sort cmp xs = foldr (sort_insert cmp) xs []"

text \<open>
  Modelled from the spec: \<^verbatim>\<open>delta\<close> of \<^verbatim>\<open>vs/base/common/arrays\<close> is not among the
  sources. The spec: a merge-style set difference over the two sorted sequences using the
  comparison; entries present only in the old sequence are removed, entries present only
  in the new one are added, entries present in both (by key) are ignored; duplicates are
  distinct entries by position. The result is the pair \<open>(removed, added)\<close>.
\<close>

fun delta :: "'a list \<Rightarrow> 'a list \<Rightarrow> ('a \<Rightarrow> 'a \<Rightarrow> int) \<Rightarrow> 'a list \<times> 'a list" where
  "delta [] new cmp = ([], new)"
| "delta (b # old) [] cmp = (b # old, [])"
| "delta (b # old) (a # new) cmp =
     (let n = cmp b a in
      if n = 0 then delta old new cmp
      else if n < 0 then (case delta old (a # new) cmp of (rem, add) \<Rightarrow> (b # rem, add))
      else (case delta (b # old) new cmp of (rem, add) \<Rightarrow> (rem, a # add)))"

subsection \<open>\<^verbatim>\<open>ExtHostWorkspace\<close>: construction and the folder queries\<close>

definition new_ExtHostWorkspace ::
  "(string \<Rightarrow> string) \<Rightarrow> nat \<Rightarrow> IWorkspaceData option \<Rightarrow> ExtHostWorkspace" where
  "new_ExtHostWorkspace basename threadService_proxy data =
     \<lparr>proxy = threadService_proxy, workspace2 = fromData basename data, fired = []\<rparr>"

definition getWorkspaceFolders :: "ExtHostWorkspace \<Rightarrow> WorkspaceFolder list option" where
  "getWorkspaceFolders this =
     (case workspace2 this of None \<Rightarrow> None | Some w \<Rightarrow> Some (folders w))"

definition getEnclosingWorkspaceFolder ::
  "(Workspace \<Rightarrow> URI \<Rightarrow> URI option) \<Rightarrow> ExtHostWorkspace \<Rightarrow> URI \<Rightarrow> WorkspaceFolder option" where
  "getEnclosingWorkspaceFolder ws_getRoot this u =
     (case workspace2 this of None \<Rightarrow> None | Some w \<Rightarrow> getRoot ws_getRoot w u)"

text \<open>
  \<^verbatim>\<open>getPath\<close>: \<^verbatim>\<open>undefined\<close> without a workspace or without roots, otherwise
  \<^verbatim>\<open>roots[0].fsPath\<close>. The test on exactly one root is commented out in the source.
\<close>

definition getPath :: "ExtHostWorkspace \<Rightarrow> string option" where
  "getPath this =
     (case workspace2 this of
        None \<Rightarrow> None
      | Some w \<Rightarrow>
          (let rs = roots (workspace w) in
           if length rs = 0 then None else Some (fsPath (rs ! 0))))"

text \<open>
  \<^verbatim>\<open>getRelativePath(pathOrUri)\<close>. The argument is a string, a URI or
  \<^verbatim>\<open>undefined\<close>; a falsy path (\<^verbatim>\<open>undefined\<close> or the empty string) is returned as it
  is. \<^verbatim>\<open>normalize\<close> (\<^verbatim>\<open>vs/base/common/paths\<close>, the parameter \<open>normalize_path\<close>)
  and \<^verbatim>\<open>relative\<close> (Node) are parameters. \<^verbatim>\<open>result.indexOf('..') === 0\<close> holds when the result starts with two dots.
\<close>

datatype pathOrUri = PathString string | PathUri URI | PathUndefined

fun roots_loop :: "(string \<Rightarrow> string) \<Rightarrow> (string \<Rightarrow> string \<Rightarrow> string) \<Rightarrow> URI list \<Rightarrow> string \<Rightarrow> string" where
  "roots_loop normalize_path relative [] path = normalize_path path"
| "roots_loop normalize_path relative (root # rest) path =
     (let result = relative (fsPath root) path in
      if result = [] \<or> take 2 result = ''..'' then roots_loop normalize_path relative rest path
      else normalize_path result)"

definition getRelativePath ::
  "(string \<Rightarrow> string) \<Rightarrow> (string \<Rightarrow> string \<Rightarrow> string) \<Rightarrow> ExtHostWorkspace \<Rightarrow> pathOrUri \<Rightarrow> string option" where
  "getRelativePath normalize_path relative this pathOrUri =
     (let path = (case pathOrUri of
                    PathString s \<Rightarrow> Some s
                  | PathUri u \<Rightarrow> Some (fsPath u)
                  | PathUndefined \<Rightarrow> None)
      in case path of
           None \<Rightarrow> None
         | Some p \<Rightarrow>
             if p = [] then Some p
             else (case workspace2 this of
                     None \<Rightarrow> Some (normalize_path p)
                   | Some w \<Rightarrow>
                       if roots (workspace w) = [] then Some (normalize_path p)
                       else Some (roots_loop normalize_path relative (roots (workspace w)) p)))"

subsection \<open>\<^verbatim>\<open>$acceptWorkspaceData\<close>\<close>

text \<open>
  \<^verbatim>\<open>this._workspace.folders.sort(...)\<close> sorts the array of the snapshot itself and
  returns it: \<open>sort_folders\<close> gives the snapshot with its folders reordered, together
  with that list. The old snapshot is sorted, then replaced; the new snapshot is sorted
  as well and stays the current one. One event is fired.
\<close>

definition sort_folders :: "Workspace2 option \<Rightarrow> Workspace2 option \<times> WorkspaceFolder list" where
  "sort_folders w =
     (case w of
        None \<Rightarrow> (None, [])
      | Some v \<Rightarrow>
          (let s = array_sort compareWorkspaceFolder (folders v)
           in (Some (v\<lparr>folders := s\<rparr>), s)))"

definition acceptWorkspaceData ::
  "(string \<Rightarrow> string) \<Rightarrow> IWorkspaceData option \<Rightarrow> ExtHostWorkspace \<Rightarrow> ExtHostWorkspace" where
  "acceptWorkspaceData basename data this =
     (let (old_ws, oldRoots) = sort_folders (workspace2 this);
          this1 = this\<lparr>workspace2 := old_ws\<rparr>;
          this2 = this1\<lparr>workspace2 := fromData basename data\<rparr>;
          (new_ws, newRoots) = sort_folders (workspace2 this2);
          this3 = this2\<lparr>workspace2 := new_ws\<rparr>;
          (rem, add) = delta oldRoots newRoots compareWorkspaceFolder
      in this3\<lparr>fired := fired this3 @ [\<lparr>added = add, removed = rem\<rparr>]\<rparr>)"

text \<open>The folders of the current snapshot, none without a workspace.\<close>

definition current_folders :: "ExtHostWorkspace \<Rightarrow> WorkspaceFolder list" where
  "current_folders this = (case workspace2 this of None \<Rightarrow> [] | Some w \<Rightarrow> folders w)"

text \<open>The folders of the snapshot that \<^verbatim>\<open>Workspace2.fromData(data)\<close> constructs.\<close>

definition data_folders :: "(string \<Rightarrow> string) \<Rightarrow> IWorkspaceData option \<Rightarrow> WorkspaceFolder list" where
  "data_folders basename data = (case fromData basename data of None \<Rightarrow> [] | Some w \<Rightarrow> folders w)"

text \<open>The canonical URI string of a folder: \<^verbatim>\<open>folder.uri.toString()\<close>.\<close>

definition uri_key :: "WorkspaceFolder \<Rightarrow> string" where
  "uri_key f = toString (uri f)"

text \<open>The event that one call of \<^verbatim>\<open>$acceptWorkspaceData\<close> fires.\<close>

definition accept_event ::
  "(string \<Rightarrow> string) \<Rightarrow> IWorkspaceData option \<Rightarrow> ExtHostWorkspace \<Rightarrow> WorkspaceFoldersChangeEvent" where
  "accept_event basename data this = last (fired (acceptWorkspaceData basename data this))"

subsection \<open>Search: request ids and cancellation\<close>

text \<open>
  \<^verbatim>\<open>_requestIdPool\<close> is a static field: one counter for all instances of the class in
  a process. It is a JavaScript number that starts at 0 and only ever changes by
  \<^verbatim>\<open>++\<close>: numbers are IEEE doubles, which hold every integer up to \<open>2^53\<close> exactly,
  and \<open>2^53 + 1\<close> rounds back to \<open>2^53\<close>.
\<close>

definition number_limit :: nat where
  "number_limit = 2 ^ 53"

definition number_increment :: "nat \<Rightarrow> nat" where
  "number_increment n = (if n < number_limit then n + 1 else n)"

text \<open>
  The calls an instance makes on its main-thread proxy
  (\<^verbatim>\<open>MainThreadWorkspaceShape\<close>), as messages.
\<close>

record ('irange, 'eolseq) IResourceEdit =
  resource :: URI
  re_newText :: string
  re_newEol :: "'eolseq option"
  re_range :: "'irange option"

datatype ('irange, 'eolseq) message =
    StartSearch string string "nat option" nat
  | CancelSearch nat
  | SaveAll "bool option"
  | ApplyWorkspaceEdit "('irange, 'eolseq) IResourceEdit list"

text \<open>
  What the instances of a process share, and their surroundings: the static counter,
  the messages sent so far, each with the proxy it was sent on, and the callbacks
  registered with \<^verbatim>\<open>token.onCancellationRequested\<close>: the token, and the proxy and
  request id that the callback \<^verbatim>\<open>() => this._proxy.$cancelSearch(requestId)\<close> closes
  over. Tokens and proxies are named by numbers.
\<close>

record ('irange, 'eolseq) process =
  requestIdPool :: nat
  outbox :: "(nat \<times> ('irange, 'eolseq) message) list"
  listeners :: "(nat \<times> nat \<times> nat) list"

text \<open>The process when the class is loaded: \<^verbatim>\<open>private static _requestIdPool = 0\<close>.\<close>

definition process_start :: "('irange, 'eolseq) process" where
  "process_start = \<lparr>requestIdPool = 0, outbox = [], listeners = []\<rparr>"

text \<open>
  \<^verbatim>\<open>findFiles\<close> returns the promise of \<^verbatim>\<open>$startSearch\<close> unchanged; the model
  returns the request id, which names that pending search.
\<close>

definition findFiles ::
  "string \<Rightarrow> string \<Rightarrow> nat option \<Rightarrow> nat option \<Rightarrow> ExtHostWorkspace \<Rightarrow>
   ('irange, 'eolseq) process \<Rightarrow> nat \<times> ('irange, 'eolseq) process" where
  "findFiles include exclude maxResults token this p =
     (let requestId = requestIdPool p;
          p1 = p\<lparr>requestIdPool := number_increment (requestIdPool p)\<rparr>;
          p2 = p1\<lparr>outbox := outbox p1 @ [(proxy this, StartSearch include exclude maxResults requestId)]\<rparr>;
          p3 = (case token of
                  None \<Rightarrow> p2
                | Some t \<Rightarrow> p2\<lparr>listeners := listeners p2 @ [(t, proxy this, requestId)]\<rparr>)
      in (requestId, p3))"

text \<open>
  A cancellation token that fires calls the callbacks registered with it, in the order
  of registration; each sends \<^verbatim>\<open>$cancelSearch(requestId)\<close> on its proxy.
\<close>

definition fire_token :: "nat \<Rightarrow> ('irange, 'eolseq) process \<Rightarrow> ('irange, 'eolseq) process" where
  "fire_token t p =
     p\<lparr>outbox := outbox p @
          map (\<lambda>(t', q, requestId). (q, CancelSearch requestId))
            (filter (\<lambda>(t', q, requestId). t' = t) (listeners p))\<rparr>"

definition saveAll ::
  "bool option \<Rightarrow> ExtHostWorkspace \<Rightarrow> ('irange, 'eolseq) process \<Rightarrow> ('irange, 'eolseq) process" where
  "saveAll includeUntitled this p = p\<lparr>outbox := outbox p @ [(proxy this, SaveAll includeUntitled)]\<rparr>"

text \<open>
  A run of the search side of one instance: its own \<^verbatim>\<open>findFiles\<close> calls, calls of
  \<^verbatim>\<open>findFiles\<close> on other instances of the process, tokens that fire, and searches that
  complete. The promise of a search is the proxy's own, so no code of the class runs
  when a search completes. \<open>run_calls\<close> collects the request ids that the instance's own
  calls allocate, in order.
\<close>

datatype call =
    Call_findFiles string string "nat option" "nat option"
  | Other_findFiles ExtHostWorkspace string string "nat option" "nat option"
  | Token_fired nat
  | Search_completed nat

fun run_calls ::
  "call list \<Rightarrow> ExtHostWorkspace \<Rightarrow> ('irange, 'eolseq) process \<Rightarrow> nat list \<times> ('irange, 'eolseq) process" where
  "run_calls [] this p = ([], p)"
| "run_calls (Call_findFiles i e m t # cs) this p =
     (case findFiles i e m t this p of
        (requestId, p') \<Rightarrow> (case run_calls cs this p' of (ids, p'') \<Rightarrow> (requestId # ids, p'')))"
| "run_calls (Other_findFiles other i e m t # cs) this p =
     run_calls cs this (snd (findFiles i e m t other p))"
| "run_calls (Token_fired t # cs) this p = run_calls cs this (fire_token t p)"
| "run_calls (Search_completed requestId # cs) this p = run_calls cs this p"

text \<open>The number of \<^verbatim>\<open>findFiles\<close> calls of a run, on any instance.\<close>

fun allocations :: "call list \<Rightarrow> nat" where
  "allocations [] = 0"
| "allocations (Call_findFiles i e m t # cs) = Suc (allocations cs)"
| "allocations (Other_findFiles other i e m t # cs) = Suc (allocations cs)"
| "allocations (c # cs) = allocations cs"

subsection \<open>\<^verbatim>\<open>appyEdit\<close>: flattening a workspace edit\<close>

text \<open>
  \<^verbatim>\<open>vscode.TextEdit\<close>: \<^verbatim>\<open>{ range, newText, newEol }\<close>, where the range and the end
  of line may be missing. \<^verbatim>\<open>edit.entries()\<close> of a \<^verbatim>\<open>vscode.WorkspaceEdit\<close> is a
  list of pairs of a URI and its text edits.
\<close>

record ('range, 'eol) TextEdit =
  edit_range :: "'range option"
  newText :: string
  newEol :: "'eol option"

text \<open>
  The record pushed for one edit. \<^verbatim>\<open>fromRange\<close> and \<^verbatim>\<open>EndOfLine.from\<close> of
  \<^verbatim>\<open>extHostTypeConverters\<close> are parameters; \<^verbatim>\<open>edit.range && fromRange(edit.range)\<close>
  converts a range that is there and passes a missing one on.
\<close>

definition toResourceEdit ::
  "('range \<Rightarrow> 'irange) \<Rightarrow> ('eol option \<Rightarrow> 'eolseq option) \<Rightarrow> URI \<Rightarrow> ('range, 'eol) TextEdit \<Rightarrow>
   ('irange, 'eolseq) IResourceEdit" where
  "toResourceEdit fromRange eol_from u edit =
     \<lparr>resource = u,
      re_newText = newText edit,
      re_newEol = eol_from (newEol edit),
      re_range = (case edit_range edit of None \<Rightarrow> None | Some r \<Rightarrow> Some (fromRange r))\<rparr>"

text \<open>The inner loop \<^verbatim>\<open>for (let edit of edits)\<close> and the outer loop over the entries.\<close>

fun edits_loop ::
  "('range \<Rightarrow> 'irange) \<Rightarrow> ('eol option \<Rightarrow> 'eolseq option) \<Rightarrow> URI \<Rightarrow> ('range, 'eol) TextEdit list \<Rightarrow>
   ('irange, 'eolseq) IResourceEdit list \<Rightarrow> ('irange, 'eolseq) IResourceEdit list" where
  "edits_loop fromRange eol_from u [] resourceEdits = resourceEdits"
| "edits_loop fromRange eol_from u (edit # edits) resourceEdits =
     edits_loop fromRange eol_from u edits (resourceEdits @ [toResourceEdit fromRange eol_from u edit])"

fun entries_loop ::
  "('range \<Rightarrow> 'irange) \<Rightarrow> ('eol option \<Rightarrow> 'eolseq option) \<Rightarrow> (URI \<times> ('range, 'eol) TextEdit list) list \<Rightarrow>
   ('irange, 'eolseq) IResourceEdit list \<Rightarrow> ('irange, 'eolseq) IResourceEdit list" where
  "entries_loop fromRange eol_from [] resourceEdits = resourceEdits"
| "entries_loop fromRange eol_from ((u, edits) # entries) resourceEdits =
     entries_loop fromRange eol_from entries (edits_loop fromRange eol_from u edits resourceEdits)"

text \<open>The list that \<^verbatim>\<open>appyEdit\<close> builds, and the call that hands it to the proxy.\<close>

definition resourceEdits_of ::
  "('range \<Rightarrow> 'irange) \<Rightarrow> ('eol option \<Rightarrow> 'eolseq option) \<Rightarrow> (URI \<times> ('range, 'eol) TextEdit list) list \<Rightarrow>
   ('irange, 'eolseq) IResourceEdit list" where
  "resourceEdits_of fromRange eol_from entries = entries_loop fromRange eol_from entries []"

definition appyEdit ::
  "('range \<Rightarrow> 'irange) \<Rightarrow> ('eol option \<Rightarrow> 'eolseq option) \<Rightarrow> (URI \<times> ('range, 'eol) TextEdit list) list \<Rightarrow>
   ExtHostWorkspace \<Rightarrow> ('irange, 'eolseq) process \<Rightarrow> ('irange, 'eolseq) process" where
  "appyEdit fromRange eol_from entries this p =
     p\<lparr>outbox := outbox p @
          [(proxy this, ApplyWorkspaceEdit (resourceEdits_of fromRange eol_from entries))]\<rparr>"

text \<open>
  The translation in the words of the spec: the resources in their given order, for
  each resource its edits in their given order, one record per pair.
\<close>

definition translate_spec ::
  "('range \<Rightarrow> 'irange) \<Rightarrow> ('eol option \<Rightarrow> 'eolseq option) \<Rightarrow> (URI \<times> ('range, 'eol) TextEdit list) list \<Rightarrow>
   ('irange, 'eolseq) IResourceEdit list" where
  "translate_spec fromRange eol_from batch =
     concat (map (\<lambda>(u, edits). map (toResourceEdit fromRange eol_from u) edits) batch)"

text \<open>
  \<^verbatim>\<open>getRelativePath\<close> in the words of the spec: without a snapshot or without roots
  the normalized path; otherwise the relative path, normalized, of the first root, in
  snapshot order, for which it is not empty and does not begin with two dots; the
  normalized path when there is no such root.
\<close>

definition getRelativePath_spec ::
  "(string \<Rightarrow> string) \<Rightarrow> (string \<Rightarrow> string \<Rightarrow> string) \<Rightarrow> ExtHostWorkspace \<Rightarrow> string \<Rightarrow> string" where
  "getRelativePath_spec normalize_path relative this path =
     (case workspace2 this of
        None \<Rightarrow> normalize_path path
      | Some w \<Rightarrow>
          (case find (\<lambda>root. relative (fsPath root) path \<noteq> [] \<and> take 2 (relative (fsPath root) path) \<noteq> ''..'')
                  (roots (workspace w)) of
             None \<Rightarrow> normalize_path path
           | Some root \<Rightarrow> normalize_path (relative (fsPath root) path)))"

subsection \<open>Collaborators at concrete inputs\<close>

text \<open>
  The path functions are parameters of the model. Where a statement is evaluated at a
  concrete input, these stand in for them: POSIX paths split at the slash, which is what
  Node's \<^verbatim>\<open>basename\<close> and \<^verbatim>\<open>relative\<close> compute for absolute paths without dot
  segments or trailing slashes; a \<^verbatim>\<open>normalize\<close> that leaves such paths alone and, as
  path normalisation does, turns the empty path into the current directory; and file URIs
  as \<^verbatim>\<open>URI.file\<close> makes them for such paths.
\<close>

fun segments_from :: "string \<Rightarrow> string \<Rightarrow> string list" where
  "segments_from cur [] = (if cur = [] then [] else [cur])"
| "segments_from cur (c # cs) =
     (if c = CHR ''/'' then (if cur = [] then [] else [cur]) @ segments_from [] cs
      else segments_from (cur @ [c]) cs)"

definition segments :: "string \<Rightarrow> string list" where
  "segments p = segments_from [] p"

fun strip_common :: "string list \<Rightarrow> string list \<Rightarrow> string list \<times> string list" where
  "strip_common (a # as) (b # bs) = (if a = b then strip_common as bs else (a # as, b # bs))"
| "strip_common as bs = (as, bs)"

fun join_slash :: "string list \<Rightarrow> string" where
  "join_slash [] = []"
| "join_slash [s] = s"
| "join_slash (s # t # ss) = s @ ''/'' @ join_slash (t # ss)"

definition basename_posix :: "string \<Rightarrow> string" where
  "basename_posix p = (case segments p of [] \<Rightarrow> [] | s # ss \<Rightarrow> last (s # ss))"

definition relative_posix :: "string \<Rightarrow> string \<Rightarrow> string" where
  "relative_posix from to =
     (case strip_common (segments from) (segments to) of
        (f, t) \<Rightarrow> join_slash (replicate (length f) ''..'' @ t))"

definition normalize_posix :: "string \<Rightarrow> string" where
  "normalize_posix p = (if p = [] then ''.'' else p)"

definition file_uri :: "string \<Rightarrow> URI" where
  "file_uri p = \<lparr>toString = ''file://'' @ p, fsPath = p\<rparr>"

definition workspace_data :: "string list \<Rightarrow> IWorkspaceData" where
  "workspace_data paths = \<lparr>data_id = ''w1'', data_name = ''proj'', data_roots = map file_uri paths\<rparr>"

section \<open>Properties\<close>

subsection \<open>Facts about the comparison, the sort and the delta\<close>

lemma compareWorkspaceFolder_le: "compareWorkspaceFolder a b \<le> 0 \<longleftrightarrow> uri_key a \<le> uri_key b"
  by (auto simp: compareWorkspaceFolder_def compare_def uri_key_def)

lemma compareWorkspaceFolder_zero: "compareWorkspaceFolder a b = 0 \<longleftrightarrow> uri_key a = uri_key b"
  by (auto simp: compareWorkspaceFolder_def compare_def uri_key_def)

lemma compareWorkspaceFolder_neg: "compareWorkspaceFolder a b < 0 \<longleftrightarrow> uri_key a < uri_key b"
  by (auto simp: compareWorkspaceFolder_def compare_def uri_key_def)

lemma sort_insert_insort_key: "sort_insert compareWorkspaceFolder x ys = insort_key uri_key x ys"
  by (induction ys) (simp_all add: compareWorkspaceFolder_le)

lemma array_sort_sort_key: "array_sort compareWorkspaceFolder xs = sort_key uri_key xs"
  by (induction xs) (simp_all add: array_sort_def sort_key_def sort_insert_insort_key)

lemma delta_same_keys:
  "map uri_key xs = map uri_key ys \<Longrightarrow> delta xs ys compareWorkspaceFolder = ([], [])"
proof (induction xs arbitrary: ys)
  case Nil
  then show ?case by simp
next
  case (Cons x xs)
  then obtain y ys' where ys: "ys = y # ys'" by (cases ys) auto
  with Cons.prems have "uri_key x = uri_key y" "map uri_key xs = map uri_key ys'" by auto
  with Cons.IH ys show ?case by (simp add: compareWorkspaceFolder_zero)
qed

lemma delta_strictly_sorted:
  "sorted_wrt (<) (map uri_key xs) \<Longrightarrow> sorted_wrt (<) (map uri_key ys) \<Longrightarrow>
   delta xs ys compareWorkspaceFolder =
     (filter (\<lambda>x. uri_key x \<notin> uri_key ` set ys) xs, filter (\<lambda>y. uri_key y \<notin> uri_key ` set xs) ys)"
proof (induction xs ys compareWorkspaceFolder rule: delta.induct)
  case (1 new)
  then show ?case by simp
next
  case (2 b old)
  then show ?case by simp
next
  case (3 b old a new)
  from "3.prems" have so: "sorted_wrt (<) (map uri_key old)" and sn: "sorted_wrt (<) (map uri_key new)"
    and bo: "\<forall>x\<in>set old. uri_key b < uri_key x" and an: "\<forall>y\<in>set new. uri_key a < uri_key y"
    by auto
  consider (eq) "uri_key b = uri_key a" | (lt) "uri_key b < uri_key a" | (gt) "uri_key a < uri_key b"
    by (metis linorder_less_linear)
  then show ?case
  proof cases
    case eq
    then have n: "compareWorkspaceFolder b a = 0" by (simp add: compareWorkspaceFolder_zero)
    have f1: "filter (\<lambda>x. uri_key x \<notin> uri_key ` set (a # new)) (b # old)
            = filter (\<lambda>x. uri_key x \<notin> uri_key ` set new) old"
      using eq bo by (auto intro!: filter_cong)
    have f2: "filter (\<lambda>y. uri_key y \<notin> uri_key ` set (b # old)) (a # new)
            = filter (\<lambda>y. uri_key y \<notin> uri_key ` set old) new"
      using eq an by (auto intro!: filter_cong)
    show ?thesis using "3.hyps"(1)[OF refl n so sn] n f1 f2 by simp
  next
    case lt
    then have n: "compareWorkspaceFolder b a \<noteq> 0" "compareWorkspaceFolder b a < 0"
      by (simp_all add: compareWorkspaceFolder_zero compareWorkspaceFolder_neg)
    have bn: "uri_key b \<notin> uri_key ` set (a # new)" using lt an by force
    have f2: "filter (\<lambda>y. uri_key y \<notin> uri_key ` set (b # old)) (a # new)
            = filter (\<lambda>y. uri_key y \<notin> uri_key ` set old) (a # new)"
      using lt an by (intro filter_cong) force+
    show ?thesis using "3.hyps"(2)[OF refl n so "3.prems"(2)] n bn f2 by simp
  next
    case gt
    then have n: "compareWorkspaceFolder b a \<noteq> 0" "\<not> compareWorkspaceFolder b a < 0"
      by (simp_all add: compareWorkspaceFolder_zero compareWorkspaceFolder_neg)
    have ao: "uri_key a \<notin> uri_key ` set (b # old)" using gt bo by force
    have f1: "filter (\<lambda>x. uri_key x \<notin> uri_key ` set (a # new)) (b # old)
            = filter (\<lambda>x. uri_key x \<notin> uri_key ` set new) (b # old)"
      using gt bo by (intro filter_cong) force+
    show ?thesis using "3.hyps"(3)[OF refl n "3.prems"(1) sn] n ao f1 by simp
  qed
qed

lemma strictly_sorted_sort_key:
  "distinct (map f xs) \<Longrightarrow> sorted_wrt (<) (map f (sort_key f xs))"
proof -
  assume d: "distinct (map f xs)"
  have "mset (map f (sort_key f xs)) = mset (map f xs)" by simp
  then have "distinct (map f (sort_key f xs))" using d by (metis mset_eq_imp_distinct_iff)
  then show ?thesis by (simp add: strict_sorted_iff)
qed

subsection \<open>Facts about the snapshot and the accept call\<close>

lemma map_uri_map_index: "map uri (map_index basename i us) = us"
  by (induction us arbitrary: i) simp_all

lemma map_index_map_index: "map index (map_index basename i us) = [i..<i + length us]"
  by (induction us arbitrary: i) (simp_all add: upt_rec)

lemma length_map_index: "length (map_index basename i us) = length us"
  by (induction us arbitrary: i) simp_all

lemma fired_acceptWorkspaceData:
  "fired (acceptWorkspaceData basename data this) =
     fired this @
       [\<lparr>added = snd (delta (sort_key uri_key (current_folders this))
                     (sort_key uri_key (data_folders basename data)) compareWorkspaceFolder),
         removed = fst (delta (sort_key uri_key (current_folders this))
                     (sort_key uri_key (data_folders basename data)) compareWorkspaceFolder)\<rparr>]"
  by (simp add: acceptWorkspaceData_def sort_folders_def current_folders_def data_folders_def
      array_sort_sort_key Let_def split: option.splits prod.splits)

lemma current_folders_acceptWorkspaceData:
  "current_folders (acceptWorkspaceData basename data this) = sort_key uri_key (data_folders basename data)"
  by (simp add: acceptWorkspaceData_def sort_folders_def current_folders_def data_folders_def
      array_sort_sort_key Let_def split: option.splits prod.splits)

lemma accept_event_delta:
  "accept_event basename data this =
     \<lparr>added = snd (delta (sort_key uri_key (current_folders this))
                     (sort_key uri_key (data_folders basename data)) compareWorkspaceFolder),
      removed = fst (delta (sort_key uri_key (current_folders this))
                     (sort_key uri_key (data_folders basename data)) compareWorkspaceFolder)\<rparr>"
  by (simp add: accept_event_def fired_acceptWorkspaceData)

lemma map_insort_key_comp: "map g (insort_key (\<lambda>x. f (g x)) x xs) = insort_key f (g x) (map g xs)"
  by (induction xs) simp_all

lemma map_sort_key_comp: "map g (sort_key (\<lambda>x. f (g x)) xs) = sort_key f (map g xs)"
  by (induction xs) (simp_all add: map_insort_key_comp)

lemma filter_key_singleton:
  "distinct (map f xs) \<Longrightarrow> k \<in> set xs \<Longrightarrow> filter (\<lambda>x. f k = f x) xs = [k]"
proof (induction xs)
  case Nil
  then show ?case by simp
next
  case (Cons x xs)
  show ?case
  proof (cases "k = x")
    case True
    with Cons.prems have "\<forall>y\<in>set xs. f k \<noteq> f y" by force
    then have "filter (\<lambda>x. f k = f x) xs = []" by (simp add: filter_empty_conv)
    with True show ?thesis by simp
  next
    case False
    with Cons.prems have kin: "k \<in> set xs" by simp
    from Cons.prems(1) have "f x \<notin> f ` set xs" by simp
    with kin have "f k \<noteq> f x" by (metis imageI)
    with kin Cons show ?thesis by simp
  qed
qed

lemma sort_key_permutation:
  assumes "mset ys = mset xs" and "distinct (map f xs)"
  shows "sort_key f ys = sort_key f xs"
proof (rule properties_for_sort_key)
  show "mset (sort_key f xs) = mset ys" using assms by simp
  show "sorted (map f (sort_key f xs))" by simp
  fix k assume "k \<in> set (sort_key f xs)"
  then have k: "k \<in> set xs" by simp
  then have k': "k \<in> set ys" using assms(1) by (metis mset_eq_setD)
  have dy: "distinct (map f ys)" using assms by (metis mset_eq_imp_distinct_iff mset_map)
  have ds: "distinct (map f (sort_key f xs))" using assms(2) by (metis mset_eq_imp_distinct_iff mset_map mset_sort)
  have "filter (\<lambda>x. f k = f x) (sort_key f xs) = [k]"
    using ds k by (intro filter_key_singleton) simp_all
  moreover have "filter (\<lambda>x. f k = f x) ys = [k]"
    using dy k' by (rule filter_key_singleton)
  ultimately show "filter (\<lambda>x. f k = f x) (sort_key f xs) = filter (\<lambda>x. f k = f x) ys" by simp
qed

lemma map_uri_data_folders:
  "map uri (data_folders basename data) = (case data of None \<Rightarrow> [] | Some d \<Rightarrow> data_roots d)"
  by (simp add: data_folders_def fromData_def new_Workspace2_def new_Workspace_def map_uri_map_index
      split: option.splits)

lemma map_uri_key: "map uri_key xs = map toString (map uri xs)"
  by (simp add: uri_key_def)

lemma uri_key_image: "uri_key ` set xs = toString ` set (map uri xs)"
  by (simp add: uri_key_def image_image)

lemma map_uri_sorted_filter:
  "map uri (filter (\<lambda>f. uri_key f \<notin> K) (sort_key uri_key xs)) =
   filter (\<lambda>u. toString u \<notin> K) (sort_key toString (map uri xs))"
proof -
  have "map uri (sort_key uri_key xs) = sort_key toString (map uri xs)"
    using map_sort_key_comp[of uri toString xs] by (simp add: uri_key_def[abs_def])
  moreover have "map uri (filter (\<lambda>f. uri_key f \<notin> K) ys) =
      filter (\<lambda>u. toString u \<notin> K) (map uri ys)" for ys
    by (simp add: filter_map o_def uri_key_def)
  ultimately show ?thesis by simp
qed

lemma accept_event_distinct:
  assumes "distinct (map uri_key (current_folders this))"
    and "distinct (map uri_key (data_folders basename data))"
  shows "accept_event basename data this =
     \<lparr>added = filter (\<lambda>f. uri_key f \<notin> uri_key ` set (current_folders this))
                (sort_key uri_key (data_folders basename data)),
      removed = filter (\<lambda>f. uri_key f \<notin> uri_key ` set (data_folders basename data))
                (sort_key uri_key (current_folders this))\<rparr>"
  using assms
  by (simp add: accept_event_delta delta_strictly_sorted strictly_sorted_sort_key)


lemma distinct_uri_key_mset:
  assumes "mset (map uri ys) = mset (map uri xs)" and "distinct (map uri_key xs)"
  shows "distinct (map uri_key ys)"
proof -
  have "mset (map toString (map uri ys)) = mset (map toString (map uri xs))"
    using assms(1) by (metis mset_map)
  then show ?thesis using assms(2) by (metis map_uri_key mset_eq_imp_distinct_iff)
qed

lemma map_uri_added_permutation:
  assumes old: "distinct (map uri_key xs)"
    and new: "distinct (map uri_key ys)"
    and old': "mset (map uri xs') = mset (map uri xs)"
    and new': "mset (map uri ys') = mset (map uri ys)"
  shows "map uri (filter (\<lambda>f. uri_key f \<notin> uri_key ` set xs') (sort_key uri_key ys')) =
         map uri (filter (\<lambda>f. uri_key f \<notin> uri_key ` set xs) (sort_key uri_key ys))"
proof -
  have "set (map uri xs') = set (map uri xs)" using old' by (rule mset_eq_setD)
  then have k: "uri_key ` set xs' = uri_key ` set xs" by (simp only: uri_key_image)
  have "distinct (map toString (map uri ys))" using new by (simp only: map_uri_key)
  with new' have "sort_key toString (map uri ys') = sort_key toString (map uri ys)"
    by (rule sort_key_permutation)
  with k show ?thesis by (simp only: map_uri_sorted_filter)
qed

subsection \<open>The change event of an accept call\<close>

text \<open>
  C1 (amended). When the URI strings of the folders of the old snapshot are pairwise
  distinct, and those of the new snapshot as well, the one event that
  \<^verbatim>\<open>$acceptWorkspaceData\<close> fires holds as added exactly the folders of the new snapshot
  whose URI string is that of no folder of the old one, and as removed exactly the
  folders of the old snapshot whose URI string is that of no folder of the new one, each
  once. The result does not depend on the order of either list: an accept call whose old
  and new folder lists hold the same URIs in another order adds and removes the same
  URIs, in the same order.
\<close>

theorem acceptWorkspaceData_delta:
  assumes old: "distinct (map uri_key (current_folders this))"
    and new: "distinct (map uri_key (data_folders basename data))"
    and old': "mset (map uri (current_folders this')) = mset (map uri (current_folders this))"
    and new': "mset (map uri (data_folders basename' data')) = mset (map uri (data_folders basename data))"
  shows "fired (acceptWorkspaceData basename data this) = fired this @ [accept_event basename data this]
    \<and> distinct (added (accept_event basename data this))
    \<and> set (added (accept_event basename data this)) =
        {f \<in> set (data_folders basename data). uri_key f \<notin> uri_key ` set (current_folders this)}
    \<and> distinct (removed (accept_event basename data this))
    \<and> set (removed (accept_event basename data this)) =
        {f \<in> set (current_folders this). uri_key f \<notin> uri_key ` set (data_folders basename data)}
    \<and> map uri (added (accept_event basename' data' this')) = map uri (added (accept_event basename data this))
    \<and> map uri (removed (accept_event basename' data' this')) = map uri (removed (accept_event basename data this))"
proof -
  let ?xs = "current_folders this" and ?ys = "data_folders basename data"
  let ?xs' = "current_folders this'" and ?ys' = "data_folders basename' data'"
  have e: "accept_event basename data this =
     \<lparr>added = filter (\<lambda>f. uri_key f \<notin> uri_key ` set ?xs) (sort_key uri_key ?ys),
      removed = filter (\<lambda>f. uri_key f \<notin> uri_key ` set ?ys) (sort_key uri_key ?xs)\<rparr>"
    using old new by (rule accept_event_distinct)
  have dx': "distinct (map uri_key ?xs')" using old' old by (rule distinct_uri_key_mset)
  have dy': "distinct (map uri_key ?ys')" using new' new by (rule distinct_uri_key_mset)
  have e': "accept_event basename' data' this' =
     \<lparr>added = filter (\<lambda>f. uri_key f \<notin> uri_key ` set ?xs') (sort_key uri_key ?ys'),
      removed = filter (\<lambda>f. uri_key f \<notin> uri_key ` set ?ys') (sort_key uri_key ?xs')\<rparr>"
    using dx' dy' by (rule accept_event_distinct)
  have dx: "distinct ?xs" using old by (rule distinct_map[THEN iffD1, THEN conjunct1])
  have dy: "distinct ?ys" using new by (rule distinct_map[THEN iffD1, THEN conjunct1])
  have 1: "fired (acceptWorkspaceData basename data this) = fired this @ [accept_event basename data this]"
    by (simp add: fired_acceptWorkspaceData accept_event_delta)
  have 2: "distinct (added (accept_event basename data this))" using dy by (simp add: e)
  have 3: "set (added (accept_event basename data this)) =
        {f \<in> set ?ys. uri_key f \<notin> uri_key ` set ?xs}" by (simp add: e)
  have 4: "distinct (removed (accept_event basename data this))" using dx by (simp add: e)
  have 5: "set (removed (accept_event basename data this)) =
        {f \<in> set ?xs. uri_key f \<notin> uri_key ` set ?ys}" by (simp add: e)
  have 6: "map uri (added (accept_event basename' data' this')) = map uri (added (accept_event basename data this))"
    using map_uri_added_permutation[OF old new old' new'] by (simp add: e e')
  have 7: "map uri (removed (accept_event basename' data' this')) = map uri (removed (accept_event basename data this))"
    using map_uri_added_permutation[OF new old new' old'] by (simp add: e e')
  from 1 2 3 4 5 6 7 show ?thesis by blast
qed

text \<open>
  The theorem at work: the roots \<^verbatim>\<open>/c\<close>, \<^verbatim>\<open>/a\<close> are replaced by \<^verbatim>\<open>/a\<close>,
  \<^verbatim>\<open>/b\<close>; \<^verbatim>\<open>/b\<close> is added and \<^verbatim>\<open>/c\<close> removed, in whatever order the roots
  come.
\<close>

theorem acceptWorkspaceData_delta_witness:
  "distinct (map uri_key (current_folders (new_ExtHostWorkspace basename_posix 0 (Some (workspace_data [''/c'', ''/a''])))))
   \<and> distinct (map uri_key (data_folders basename_posix (Some (workspace_data [''/a'', ''/b'']))))
   \<and> added (accept_event basename_posix (Some (workspace_data [''/a'', ''/b'']))
        (new_ExtHostWorkspace basename_posix 0 (Some (workspace_data [''/c'', ''/a'']))))
       = [\<lparr>name = ''b'', uri = file_uri ''/b'', index = 1\<rparr>]
   \<and> removed (accept_event basename_posix (Some (workspace_data [''/a'', ''/b'']))
        (new_ExtHostWorkspace basename_posix 0 (Some (workspace_data [''/c'', ''/a'']))))
       = [\<lparr>name = ''c'', uri = file_uri ''/c'', index = 0\<rparr>]
   \<and> map uri (added (accept_event basename_posix (Some (workspace_data [''/b'', ''/a'']))
        (new_ExtHostWorkspace basename_posix 0 (Some (workspace_data [''/a'', ''/c''])))))
       = map uri (added (accept_event basename_posix (Some (workspace_data [''/a'', ''/b'']))
        (new_ExtHostWorkspace basename_posix 0 (Some (workspace_data [''/c'', ''/a''])))))
   \<and> map uri (removed (accept_event basename_posix (Some (workspace_data [''/b'', ''/a'']))
        (new_ExtHostWorkspace basename_posix 0 (Some (workspace_data [''/a'', ''/c''])))))
       = map uri (removed (accept_event basename_posix (Some (workspace_data [''/a'', ''/b'']))
        (new_ExtHostWorkspace basename_posix 0 (Some (workspace_data [''/c'', ''/a''])))))"
proof -
  let ?h = "new_ExtHostWorkspace basename_posix 0 (Some (workspace_data [''/c'', ''/a'']))"
  let ?d = "Some (workspace_data [''/a'', ''/b''])"
  let ?h' = "new_ExtHostWorkspace basename_posix 0 (Some (workspace_data [''/a'', ''/c'']))"
  let ?d' = "Some (workspace_data [''/b'', ''/a''])"
  have h1: "distinct (map uri_key (current_folders ?h))" by code_simp
  have h2: "distinct (map uri_key (data_folders basename_posix ?d))" by code_simp
  have u: "map uri (current_folders ?h') = [file_uri ''/a'', file_uri ''/c'']"
      "map uri (current_folders ?h) = [file_uri ''/c'', file_uri ''/a'']"
      "map uri (data_folders basename_posix ?d') = [file_uri ''/b'', file_uri ''/a'']"
      "map uri (data_folders basename_posix ?d) = [file_uri ''/a'', file_uri ''/b'']"
    by code_simp+
  have h3: "mset (map uri (current_folders ?h')) = mset (map uri (current_folders ?h))"
    unfolding u by simp
  have h4: "mset (map uri (data_folders basename_posix ?d')) = mset (map uri (data_folders basename_posix ?d))"
    unfolding u by simp
  have a: "added (accept_event basename_posix ?d ?h) = [\<lparr>name = ''b'', uri = file_uri ''/b'', index = 1\<rparr>]"
    by code_simp
  have r: "removed (accept_event basename_posix ?d ?h) = [\<lparr>name = ''c'', uri = file_uri ''/c'', index = 0\<rparr>]"
    by code_simp
  from acceptWorkspaceData_delta[OF h1 h2 h3 h4] h1 h2 a r show ?thesis by simp
qed

text \<open>
  C1 as stated, for every pair of old and new data, fails when a URI occurs twice: from
  the root \<^verbatim>\<open>/a\<close> to the roots \<^verbatim>\<open>/a\<close>, \<^verbatim>\<open>/a\<close>, one \<^verbatim>\<open>/a\<close> is added,
  though its URI string occurs in the old folder list.
\<close>

theorem acceptWorkspaceData_duplicate_root_counterexample:
  "map uri (added (accept_event basename_posix (Some (workspace_data [''/a'', ''/a'']))
     (new_ExtHostWorkspace basename_posix 0 (Some (workspace_data [''/a''])))))
   = [file_uri ''/a'']
   \<and> toString (file_uri ''/a'')
       \<in> uri_key ` set (current_folders (new_ExtHostWorkspace basename_posix 0 (Some (workspace_data [''/a'']))))"
  by code_simp

text \<open>
  What the constructor establishes, and what the sort of an accept call leaves of it:
  a new snapshot has one folder per root, in the order of the roots and with the
  position as index; after \<^verbatim>\<open>$acceptWorkspaceData\<close> the current snapshot has the same
  roots, and these folders sorted by URI string.
\<close>

lemma new_Workspace2_folders:
  "map uri (folders (new_Workspace2 basename d)) = roots (workspace (new_Workspace2 basename d))
   \<and> map index (folders (new_Workspace2 basename d)) =
       [0..<length (roots (workspace (new_Workspace2 basename d)))]
   \<and> length (folders (new_Workspace2 basename d)) = length (roots (workspace (new_Workspace2 basename d)))"
  by (simp add: new_Workspace2_def new_Workspace_def map_uri_map_index map_index_map_index
      length_map_index)

lemma workspace2_acceptWorkspaceData_Some:
  "workspace2 (acceptWorkspaceData basename (Some d) this) =
     Some ((new_Workspace2 basename d)\<lparr>folders := sort_key uri_key (folders (new_Workspace2 basename d))\<rparr>)"
  by (simp add: acceptWorkspaceData_def sort_folders_def fromData_def array_sort_sort_key Let_def
      split: prod.splits)

text \<open>
  C2. The folder list of a snapshot is to satisfy \<open>folders[i].uri = roots[i]\<close> and
  \<open>folders[i].index = i\<close> at all times, and no operation is to reorder it. Evaluated on
  the code: a new instance without a workspace accepts the roots \<^verbatim>\<open>/b\<close>, \<^verbatim>\<open>/a\<close>.
  The sort of the accept call has reordered the folders of the current snapshot: the
  first folder is \<^verbatim>\<open>/a\<close> with index 1, the first root is \<^verbatim>\<open>/b\<close>, and
  \<^verbatim>\<open>getWorkspaceFolders\<close> returns the reordered list.
\<close>

theorem acceptWorkspaceData_sorts_snapshot:
  "workspace2 (acceptWorkspaceData basename_posix (Some (workspace_data [''/b'', ''/a'']))
     (new_ExtHostWorkspace basename_posix 0 None))
   = Some \<lparr>workspace = \<lparr>ws_id = ''w1'', ws_name = ''proj'', roots = [file_uri ''/b'', file_uri ''/a'']\<rparr>,
            folders = [\<lparr>name = ''a'', uri = file_uri ''/a'', index = 1\<rparr>,
                       \<lparr>name = ''b'', uri = file_uri ''/b'', index = 0\<rparr>]\<rparr>
   \<and> getWorkspaceFolders (acceptWorkspaceData basename_posix (Some (workspace_data [''/b'', ''/a'']))
     (new_ExtHostWorkspace basename_posix 0 None))
   = Some [\<lparr>name = ''a'', uri = file_uri ''/a'', index = 1\<rparr>,
           \<lparr>name = ''b'', uri = file_uri ''/b'', index = 0\<rparr>]"
  by code_simp

text \<open>
  C3. Every accept call fires exactly one event, appended to the events fired before,
  whatever the data; and an accept call that follows an accept call with the same data
  fires an event whose added and removed lists are both empty.
\<close>

theorem acceptWorkspaceData_fires_once:
  "fired (acceptWorkspaceData basename data this) = fired this @ [accept_event basename data this]
   \<and> accept_event basename data (acceptWorkspaceData basename data this) = \<lparr>added = [], removed = []\<rparr>"
proof -
  have "map uri_key (sort_key uri_key (sort_key uri_key (data_folders basename data)))
      = map uri_key (sort_key uri_key (data_folders basename data))"
    by (simp add: sort_key_id_if_sorted)
  then have "delta (sort_key uri_key (sort_key uri_key (data_folders basename data)))
     (sort_key uri_key (data_folders basename data)) compareWorkspaceFolder = ([], [])"
    by (rule delta_same_keys)
  then show ?thesis
    by (simp add: fired_acceptWorkspaceData accept_event_delta current_folders_acceptWorkspaceData)
qed

subsection \<open>The path queries\<close>

lemma roots_loop_find:
  "roots_loop normalize_path relative rs path =
     (case find (\<lambda>root. relative (fsPath root) path \<noteq> [] \<and> take 2 (relative (fsPath root) path) \<noteq> ''..'') rs of
        None \<Rightarrow> normalize_path path
      | Some root \<Rightarrow> normalize_path (relative (fsPath root) path))"
  by (induction rs) (simp_all add: Let_def)

lemma workspace2_new_ExtHostWorkspace:
  "workspace2 (new_ExtHostWorkspace basename q data) = fromData basename data"
  by (simp add: new_ExtHostWorkspace_def)

lemma workspace2_acceptWorkspaceData:
  "workspace2 (acceptWorkspaceData basename data this) = fst (sort_folders (fromData basename data))"
  by (simp add: acceptWorkspaceData_def Let_def split: prod.splits)

text \<open>
  C7. \<^verbatim>\<open>getPath\<close> returns \<^verbatim>\<open>undefined\<close> when there is no workspace or the
  workspace has no roots, and otherwise the file-system path of the first root, however
  many roots there are; so it does after the construction of an instance and after an
  accept call with such data.
\<close>

theorem getPath_first_root:
  "getPath this =
     (case workspace2 this of
        None \<Rightarrow> None
      | Some w \<Rightarrow> (case roots (workspace w) of [] \<Rightarrow> None | r # rs \<Rightarrow> Some (fsPath r)))
   \<and> getPath (new_ExtHostWorkspace basename q None) = None
   \<and> getPath (acceptWorkspaceData basename None this) = None
   \<and> getPath (acceptWorkspaceData basename (Some (d\<lparr>data_roots := []\<rparr>)) this) = None
   \<and> getPath (acceptWorkspaceData basename (Some (d\<lparr>data_roots := r # rs\<rparr>)) this) = Some (fsPath r)
   \<and> getPath (new_ExtHostWorkspace basename q (Some (d\<lparr>data_roots := r # rs\<rparr>))) = Some (fsPath r)"
  by (simp add: getPath_def workspace2_new_ExtHostWorkspace workspace2_acceptWorkspaceData
      sort_folders_def fromData_def new_Workspace2_def new_Workspace_def Let_def
      split: option.splits list.splits)

text \<open>
  C8 (amended). For every non-empty input path, given as a string or as the
  \<^verbatim>\<open>fsPath\<close> of a URI, \<^verbatim>\<open>getRelativePath\<close> returns what the spec describes: the
  normalized input when there is no workspace or no root, otherwise the normalized
  relative path of the first root, in snapshot order, for which that relative path is
  not empty and does not begin with two dots, and the normalized input when no root
  qualifies.
\<close>

theorem getRelativePath_first_root:
  "path \<noteq> [] \<Longrightarrow>
     getRelativePath normalize_path relative this (PathString path)
       = Some (getRelativePath_spec normalize_path relative this path)
   \<and> getRelativePath normalize_path relative this (PathUri \<lparr>toString = s, fsPath = path\<rparr>)
       = Some (getRelativePath_spec normalize_path relative this path)"
  by (simp add: getRelativePath_def getRelativePath_spec_def roots_loop_find split: option.splits)

text \<open>
  The theorem at work, on the scenario of the spec: with the roots \<^verbatim>\<open>/x\<close> and
  \<^verbatim>\<open>/y\<close>, the path \<^verbatim>\<open>/y/z.txt\<close> becomes \<^verbatim>\<open>z.txt\<close>.
\<close>

theorem getRelativePath_first_root_witness:
  "''/y/z.txt'' \<noteq> []
   \<and> getRelativePath normalize_posix relative_posix
        (new_ExtHostWorkspace basename_posix 0 (Some (workspace_data [''/x'', ''/y''])))
        (PathString ''/y/z.txt'')
       = Some (getRelativePath_spec normalize_posix relative_posix
        (new_ExtHostWorkspace basename_posix 0 (Some (workspace_data [''/x'', ''/y'']))) ''/y/z.txt'')
   \<and> getRelativePath_spec normalize_posix relative_posix
        (new_ExtHostWorkspace basename_posix 0 (Some (workspace_data [''/x'', ''/y'']))) ''/y/z.txt''
       = ''z.txt''"
proof -
  have h: "''/y/z.txt'' \<noteq> []" by simp
  have v: "getRelativePath_spec normalize_posix relative_posix
        (new_ExtHostWorkspace basename_posix 0 (Some (workspace_data [''/x'', ''/y'']))) ''/y/z.txt''
       = ''z.txt''" by code_simp
  from getRelativePath_first_root[OF h, THEN conjunct1] h v show ?thesis by simp
qed

text \<open>
  C8 as stated, for every input path, fails at the empty path: it is returned as it is,
  also where normalisation would change it (here into \<^verbatim>\<open>.\<close>), in a workspace without
  roots.
\<close>

theorem getRelativePath_empty_path_counterexample:
  "getRelativePath normalize_posix relative_posix
     (new_ExtHostWorkspace basename_posix 0 (Some (workspace_data []))) (PathString '''') = Some ''''
   \<and> normalize_posix '''' = ''.''"
  by code_simp

text \<open>
  C9 (amended). Without workspace data, accepted by \<^verbatim>\<open>$acceptWorkspaceData\<close> or
  passed to the constructor, every query returns its value for no workspace; none of
  them has a path that throws. \<^verbatim>\<open>getWorkspaceFolders\<close>,
  \<^verbatim>\<open>getEnclosingWorkspaceFolder\<close> and \<^verbatim>\<open>getPath\<close> return \<^verbatim>\<open>undefined\<close>;
  \<^verbatim>\<open>getRelativePath\<close> returns the normalized path when the path is not empty, the
  empty path as it is, and \<^verbatim>\<open>undefined\<close> for \<^verbatim>\<open>undefined\<close>.
\<close>

theorem no_workspace_queries:
  "getWorkspaceFolders (acceptWorkspaceData basename None this) = None
   \<and> getEnclosingWorkspaceFolder ws_getRoot (acceptWorkspaceData basename None this) u = None
   \<and> getPath (acceptWorkspaceData basename None this) = None
   \<and> getRelativePath normalize_path relative (acceptWorkspaceData basename None this) (PathString path)
       = Some (if path = [] then path else normalize_path path)
   \<and> getRelativePath normalize_path relative (acceptWorkspaceData basename None this) (PathUri u)
       = Some (if fsPath u = [] then fsPath u else normalize_path (fsPath u))
   \<and> getRelativePath normalize_path relative (acceptWorkspaceData basename None this) PathUndefined = None
   \<and> getWorkspaceFolders (new_ExtHostWorkspace basename q None) = None
   \<and> getEnclosingWorkspaceFolder ws_getRoot (new_ExtHostWorkspace basename q None) u = None
   \<and> getPath (new_ExtHostWorkspace basename q None) = None
   \<and> getRelativePath normalize_path relative (new_ExtHostWorkspace basename q None) (PathString path)
       = Some (if path = [] then path else normalize_path path)
   \<and> getRelativePath normalize_path relative (new_ExtHostWorkspace basename q None) (PathUri u)
       = Some (if fsPath u = [] then fsPath u else normalize_path (fsPath u))
   \<and> getRelativePath normalize_path relative (new_ExtHostWorkspace basename q None) PathUndefined = None"
  by (simp add: getWorkspaceFolders_def getEnclosingWorkspaceFolder_def getPath_def getRelativePath_def
      workspace2_new_ExtHostWorkspace workspace2_acceptWorkspaceData sort_folders_def fromData_def)

text \<open>
  C9 as stated has \<^verbatim>\<open>getRelativePath(p)\<close> return the normalized \<open>p\<close> for every
  \<open>p\<close>: after null data was accepted, the empty path is returned as it is, not
  normalized.
\<close>

theorem no_workspace_empty_path_counterexample:
  "getRelativePath normalize_posix relative_posix
     (acceptWorkspaceData basename_posix None (new_ExtHostWorkspace basename_posix 0 (Some (workspace_data [''/r1'']))))
     (PathString '''') = Some ''''
   \<and> Some (normalize_posix '''') = Some ''.''"
  by code_simp

text \<open>
  C10. For the empty string, for a URI whose \<^verbatim>\<open>fsPath\<close> is empty and for
  \<^verbatim>\<open>undefined\<close>, \<^verbatim>\<open>getRelativePath\<close> returns the falsy path itself; neither
  \<^verbatim>\<open>normalize\<close> nor \<^verbatim>\<open>relative\<close> nor the workspace has a part in the result.
\<close>

theorem getRelativePath_falsy:
  "getRelativePath normalize_path relative this (PathString []) = Some []
   \<and> getRelativePath normalize_path relative this (PathUri (u\<lparr>fsPath := []\<rparr>)) = Some []
   \<and> getRelativePath normalize_path relative this PathUndefined = None"
  by (simp add: getRelativePath_def)

subsection \<open>Request ids\<close>

lemma number_increment_le: "n \<le> number_limit \<Longrightarrow> number_increment n \<le> number_limit"
  by (simp add: number_increment_def)

lemma number_increment_less: "n < number_limit \<Longrightarrow> number_increment n = Suc n"
  by (simp add: number_increment_def)

lemma fst_findFiles: "fst (findFiles i e m t this p) = requestIdPool p"
  by (simp add: findFiles_def Let_def)

lemma requestIdPool_findFiles:
  "requestIdPool (snd (findFiles i e m t this p)) = number_increment (requestIdPool p)"
  by (simp add: findFiles_def Let_def split: option.splits)

lemma requestIdPool_fire_token: "requestIdPool (fire_token t p) = requestIdPool p"
  by (simp add: fire_token_def)

lemma run_calls_ids:
  "requestIdPool p + allocations cs \<le> number_limit \<Longrightarrow>
   sorted_wrt (<) (fst (run_calls cs this p)) \<and>
   (\<forall>k\<in>set (fst (run_calls cs this p)). requestIdPool p \<le> k)"
proof (induction cs this p rule: run_calls.induct)
  case (1 this p)
  then show ?case by simp
next
  case (2 i e m t cs this p)
  obtain p' where f: "findFiles i e m t this p = (requestIdPool p, p')"
    by (metis fst_findFiles prod.collapse)
  from "2.prems" have lt: "requestIdPool p < number_limit" by simp
  from f have p': "requestIdPool p' = Suc (requestIdPool p)"
    using requestIdPool_findFiles[of i e m t this p] lt by (simp add: number_increment_less)
  with "2.prems" have "requestIdPool p' + allocations cs \<le> number_limit" by simp
  from "2.IH"[OF f[symmetric] this] p'
  have ih: "sorted_wrt (<) (fst (run_calls cs this p'))"
    "\<forall>k\<in>set (fst (run_calls cs this p')). Suc (requestIdPool p) \<le> k" by simp_all
  have r: "fst (run_calls (Call_findFiles i e m t # cs) this p) =
      requestIdPool p # fst (run_calls cs this p')"
    using f by (simp split: prod.splits)
  from ih(2) have "\<forall>k\<in>set (fst (run_calls cs this p')). requestIdPool p < k"
    by (simp add: Suc_le_eq)
  with ih(1) show ?case unfolding r by (simp add: less_imp_le)
next
  case (3 other i e m t cs this p)
  let ?p' = "snd (findFiles i e m t other p)"
  from "3.prems" have lt: "requestIdPool p < number_limit" by simp
  then have p': "requestIdPool ?p' = Suc (requestIdPool p)"
    by (simp add: requestIdPool_findFiles number_increment_less)
  with "3.prems" have "requestIdPool ?p' + allocations cs \<le> number_limit" by simp
  from "3.IH"[OF this] p' show ?case by auto
next
  case (4 t cs this p)
  then show ?case by (simp add: requestIdPool_fire_token)
next
  case (5 requestId cs this p)
  then show ?case by simp
qed

lemma run_calls_replicate:
  "requestIdPool p \<le> number_limit \<Longrightarrow>
   fst (run_calls (replicate n (Call_findFiles i e m t)) this p) =
     map (\<lambda>k. min (requestIdPool p + k) number_limit) [0..<n]"
proof (induction n arbitrary: p)
  case 0
  then show ?case by simp
next
  case (Suc n)
  obtain p' where f: "findFiles i e m t this p = (requestIdPool p, p')"
    by (metis fst_findFiles prod.collapse)
  then have p': "requestIdPool p' = number_increment (requestIdPool p)"
    using requestIdPool_findFiles[of i e m t this p] by simp
  with Suc.prems have le: "requestIdPool p' \<le> number_limit" by (simp add: number_increment_le)
  have step: "min (requestIdPool p' + k) number_limit = min (requestIdPool p + Suc k) number_limit" for k
    using Suc.prems by (simp add: p' number_increment_def)
  have upt: "map (\<lambda>k. min (requestIdPool p + k) number_limit) [0..<Suc n] =
        min (requestIdPool p) number_limit # map (\<lambda>k. min (requestIdPool p + Suc k) number_limit) [0..<n]"
    by (simp only: upt_conv_Cons[of 0 "Suc n"] map_Suc_upt[symmetric] list.map map_map o_def) simp
  have "fst (run_calls (replicate (Suc n) (Call_findFiles i e m t)) this p) =
      requestIdPool p # fst (run_calls (replicate n (Call_findFiles i e m t)) this p')"
    using f by (simp split: prod.splits)
  also have "\<dots> = requestIdPool p # map (\<lambda>k. min (requestIdPool p' + k) number_limit) [0..<n]"
    by (simp only: Suc.IH[OF le])
  also have "\<dots> = min (requestIdPool p) number_limit #
      map (\<lambda>k. min (requestIdPool p + Suc k) number_limit) [0..<n]"
    using Suc.prems by (simp only: step min_absorb1)
  finally show ?case by (simp only: upt)
qed

text \<open>
  C4 (amended). In every run of one instance, with \<^verbatim>\<open>findFiles\<close> calls of its own
  and of other instances, tokens that fire and searches that complete in any order, that
  keeps the counter within the integers a number holds exactly (the value of the counter
  at the start plus the number of \<^verbatim>\<open>findFiles\<close> calls is at most \<open>2^53\<close>), the
  request ids that the instance's calls allocate are strictly increasing, so none is
  repeated or used again after its search was cancelled or has completed.
\<close>

theorem findFiles_request_ids:
  "requestIdPool p + allocations cs \<le> number_limit \<Longrightarrow>
   sorted_wrt (<) (fst (run_calls cs this p)) \<and> distinct (fst (run_calls cs this p))"
  using run_calls_ids[of p cs this] strict_sorted_iff[of "fst (run_calls cs this p)"] by blast

text \<open>
  The theorem at work: a search with a token, the token fires, another instance
  searches, the first search completes, a second search; the ids are 0 and 2.
\<close>

theorem findFiles_request_ids_witness:
  "requestIdPool (process_start :: (unit, unit) process)
     + allocations [Call_findFiles ''**/*.ts'' '''' None (Some 7), Token_fired 7,
         Other_findFiles (new_ExtHostWorkspace basename_posix 1 None) ''*'' '''' None None,
         Search_completed 0, Call_findFiles ''**/*.js'' '''' (Some 10) None] \<le> number_limit
   \<and> fst (run_calls [Call_findFiles ''**/*.ts'' '''' None (Some 7), Token_fired 7,
         Other_findFiles (new_ExtHostWorkspace basename_posix 1 None) ''*'' '''' None None,
         Search_completed 0, Call_findFiles ''**/*.js'' '''' (Some 10) None]
        (new_ExtHostWorkspace basename_posix 0 None) (process_start :: (unit, unit) process)) = [0, 2]
   \<and> sorted_wrt (<) (fst (run_calls [Call_findFiles ''**/*.ts'' '''' None (Some 7), Token_fired 7,
         Other_findFiles (new_ExtHostWorkspace basename_posix 1 None) ''*'' '''' None None,
         Search_completed 0, Call_findFiles ''**/*.js'' '''' (Some 10) None]
        (new_ExtHostWorkspace basename_posix 0 None) (process_start :: (unit, unit) process)))
   \<and> distinct (fst (run_calls [Call_findFiles ''**/*.ts'' '''' None (Some 7), Token_fired 7,
         Other_findFiles (new_ExtHostWorkspace basename_posix 1 None) ''*'' '''' None None,
         Search_completed 0, Call_findFiles ''**/*.js'' '''' (Some 10) None]
        (new_ExtHostWorkspace basename_posix 0 None) (process_start :: (unit, unit) process)))"
proof -
  let ?cs = "[Call_findFiles ''**/*.ts'' '''' None (Some 7), Token_fired 7,
         Other_findFiles (new_ExtHostWorkspace basename_posix 1 None) ''*'' '''' None None,
         Search_completed 0, Call_findFiles ''**/*.js'' '''' (Some 10) None]"
  have h: "requestIdPool (process_start :: (unit, unit) process) + allocations ?cs \<le> number_limit"
    by (simp add: process_start_def number_limit_def)
  have v: "fst (run_calls ?cs (new_ExtHostWorkspace basename_posix 0 None)
        (process_start :: (unit, unit) process)) = [0, 2]"
    by (simp add: process_start_def findFiles_def fire_token_def number_increment_def number_limit_def
        new_ExtHostWorkspace_def Let_def)
  from findFiles_request_ids[OF h, of "new_ExtHostWorkspace basename_posix 0 None"] h v
  show ?thesis by simp
qed

text \<open>
  C4 as stated, for every sequence of calls, fails where the counter leaves the exact
  integers: of \<open>2^53 + 2\<close> calls in a row from the start of the process, the last two
  both get the id \<open>2^53\<close>.
\<close>

theorem findFiles_request_id_repeats_counterexample:
  "\<not> distinct (fst (run_calls (replicate (2 ^ 53 + 2) (Call_findFiles ''*'' '''' None None))
       (new_ExtHostWorkspace basename_posix 0 None) (process_start :: (unit, unit) process)))"
proof -
  let ?ids = "fst (run_calls (replicate (number_limit + 2) (Call_findFiles ''*'' '''' None None))
       (new_ExtHostWorkspace basename_posix 0 None) (process_start :: (unit, unit) process))"
  have ids: "?ids = map (\<lambda>k. min k number_limit) [0..<number_limit + 2]"
    using run_calls_replicate[of "process_start :: (unit, unit) process" "number_limit + 2"] by (simp add: process_start_def)
  have "?ids ! number_limit = number_limit" "?ids ! Suc number_limit = number_limit"
    unfolding ids by (simp_all add: nth_append)
  moreover have "number_limit < length ?ids" "Suc number_limit < length ?ids"
    unfolding ids by simp_all
  ultimately have "\<not> distinct ?ids"
    by (metis distinct_conv_nth n_not_Suc_n)
  then show ?thesis by (simp add: number_limit_def)
qed

text \<open>
  C5 (amended). The first \<^verbatim>\<open>findFiles\<close> call of a process, made while the static
  counter still has its initial value, allocates the request id 0; in any state a call
  allocates the current value of the counter. If a token was supplied to the call, the
  token firing sends, after the cancel messages of the callbacks registered with that
  token before, a cancel message that carries the id the call allocated: after the first
  call of a process, the messages are the search with id 0 and its cancellation with
  id 0.
\<close>

theorem findFiles_first_call:
  "fst (findFiles i e m tok this process_start) = 0
   \<and> fst (findFiles i e m tok this p) = requestIdPool p
   \<and> outbox (fire_token t (snd (findFiles i e m (Some t) this p))) =
       outbox p @ [(proxy this, StartSearch i e m (requestIdPool p))]
         @ map (\<lambda>(t', q, requestId). (q, CancelSearch requestId))
             (filter (\<lambda>(t', q, requestId). t' = t) (listeners p))
         @ [(proxy this, CancelSearch (requestIdPool p))]
   \<and> outbox (fire_token t (snd (findFiles i e m (Some t) this process_start))) =
       [(proxy this, StartSearch i e m 0), (proxy this, CancelSearch 0)]"
  by (simp add: findFiles_def fire_token_def process_start_def Let_def)

text \<open>
  C5 as stated, for the first call on a freshly constructed instance, fails for a second
  instance: the counter is static, so after one search on a first instance the first
  search on a new instance gets the id 1, and the token firing cancels the id 1.
\<close>

theorem findFiles_second_instance_counterexample:
  "fst (findFiles ''*'' '''' None (Some 1) (new_ExtHostWorkspace basename_posix 2 None)
     (snd (findFiles ''*'' '''' None None (new_ExtHostWorkspace basename_posix 1 None)
        (process_start :: (unit, unit) process)))) = 1
   \<and> outbox (fire_token 1 (snd (findFiles ''*'' '''' None (Some 1) (new_ExtHostWorkspace basename_posix 2 None)
     (snd (findFiles ''*'' '''' None None (new_ExtHostWorkspace basename_posix 1 None)
        (process_start :: (unit, unit) process)))))) =
     [(1, StartSearch ''*'' '''' None 0), (2, StartSearch ''*'' '''' None 1), (2, CancelSearch 1)]"
  by (simp add: findFiles_def fire_token_def process_start_def new_ExtHostWorkspace_def
      number_increment_def number_limit_def Let_def)

subsection \<open>The translation of workspace edits\<close>

lemma edits_loop_append:
  "edits_loop fromRange eol_from u edits acc = acc @ map (toResourceEdit fromRange eol_from u) edits"
  by (induction edits arbitrary: acc) simp_all

lemma entries_loop_append:
  "entries_loop fromRange eol_from entries acc = acc @ translate_spec fromRange eol_from entries"
  by (induction entries arbitrary: acc) (auto simp: translate_spec_def edits_loop_append)

lemma length_translate_spec:
  "length (translate_spec fromRange eol_from batch) = sum_list (map (\<lambda>(u, edits). length edits) batch)"
  by (induction batch) (auto simp: translate_spec_def)

lemma map_resource_translate_spec:
  "map resource (translate_spec fromRange eol_from batch) =
     concat (map (\<lambda>(u, edits). replicate (length edits) u) batch)"
  by (induction batch) (auto simp: translate_spec_def toResourceEdit_def map_replicate_const o_def)

lemma map_fields_translate_spec:
  "map re_newText (translate_spec fromRange eol_from batch) = map newText (concat (map snd batch))"
  "map re_newEol (translate_spec fromRange eol_from batch) =
     map (\<lambda>edit. eol_from (newEol edit)) (concat (map snd batch))"
  "map re_range (translate_spec fromRange eol_from batch) =
     map (\<lambda>edit. map_option fromRange (edit_range edit)) (concat (map snd batch))"
  by (induction batch) (auto simp: translate_spec_def toResourceEdit_def o_def split: option.splits)

text \<open>
  C6. The list that \<^verbatim>\<open>appyEdit\<close> hands to the proxy is the translation the spec
  describes: the resources in enumeration order and, for each, its edits in the given
  order. Its length is the sum of the numbers of edits of the resources; each record
  carries the URI of its resource, the new text of its edit and the converted end of
  line; its range is the converted range of the edit, and is missing exactly when the
  edit has no range.
\<close>

theorem appyEdit_flattens:
  "resourceEdits_of fromRange eol_from batch = translate_spec fromRange eol_from batch
   \<and> outbox (appyEdit fromRange eol_from batch this p) =
       outbox p @ [(proxy this, ApplyWorkspaceEdit (translate_spec fromRange eol_from batch))]
   \<and> length (resourceEdits_of fromRange eol_from batch) = sum_list (map (\<lambda>(u, edits). length edits) batch)
   \<and> map resource (resourceEdits_of fromRange eol_from batch) =
       concat (map (\<lambda>(u, edits). replicate (length edits) u) batch)
   \<and> map re_newText (resourceEdits_of fromRange eol_from batch) = map newText (concat (map snd batch))
   \<and> map re_newEol (resourceEdits_of fromRange eol_from batch) =
       map (\<lambda>edit. eol_from (newEol edit)) (concat (map snd batch))
   \<and> map (\<lambda>r. re_range r = None) (resourceEdits_of fromRange eol_from batch) =
       map (\<lambda>edit. edit_range edit = None) (concat (map snd batch))
   \<and> map re_range (resourceEdits_of fromRange eol_from batch) =
       map (\<lambda>edit. map_option fromRange (edit_range edit)) (concat (map snd batch))"
proof -
  have e: "resourceEdits_of fromRange eol_from batch = translate_spec fromRange eol_from batch"
    by (simp add: resourceEdits_of_def entries_loop_append)
  have r: "map (\<lambda>r. re_range r = None) (translate_spec fromRange eol_from batch) =
       map (\<lambda>edit. edit_range edit = None) (concat (map snd batch))"
  proof -
    have "map (\<lambda>r. re_range r = None) (translate_spec fromRange eol_from batch) =
        map (\<lambda>x. x = None) (map re_range (translate_spec fromRange eol_from batch))"
      by (simp add: o_def)
    also have "\<dots> = map (\<lambda>edit. edit_range edit = None) (concat (map snd batch))"
      by (simp only: map_fields_translate_spec map_map o_def) simp
    finally show ?thesis .
  qed
  show ?thesis
    unfolding e
    by (simp add: appyEdit_def e length_translate_spec map_resource_translate_spec
        map_fields_translate_spec r)
qed

end
